theory Spec2Isabelle
  imports Main "HOL-Library.Sublist" "HOL-Library.Multiset"
begin

section \<open>Characters and the regular-expression classes the code uses\<close>

text \<open>
  A JavaScript string is modelled as a \<^typ>\<open>string\<close>: a list of 8-bit characters, read
  as the code units U+0000 .. U+00FF. The character classes are the ones of the
  source's regular expressions, cut down to that range:
  \<^item> \<^verbatim>\<open>\s\<close> (also what \<^verbatim>\<open>trim\<close> removes): TAB, LF, VT, FF, CR, SPACE, NBSP;
  \<^item> \<^verbatim>\<open>\d\<close>: 0-9;
  \<^item> \<^verbatim>\<open>[a-z0-9]\<close> and \<^verbatim>\<open>[A-Za-z0-9]\<close>.
\<close>

definition isSpace :: "char \<Rightarrow> bool" where
  "isSpace c \<longleftrightarrow>
     c = CHR 0x09 \<or> c = CHR 0x0A \<or> c = CHR 0x0B \<or> c = CHR 0x0C \<or> c = CHR 0x0D \<or>
     c = CHR 0x20 \<or> c = CHR 0xA0"

definition isDigit :: "char \<Rightarrow> bool" where
  "isDigit c \<longleftrightarrow> (let n = (of_char c :: nat) in 48 \<le> n \<and> n \<le> 57)"

definition isLowerAlnum :: "char \<Rightarrow> bool" where
  "isLowerAlnum c \<longleftrightarrow>
     (let n = (of_char c :: nat) in (97 \<le> n \<and> n \<le> 122) \<or> (48 \<le> n \<and> n \<le> 57))"

definition isAlnum :: "char \<Rightarrow> bool" where
  "isAlnum c \<longleftrightarrow>
     (let n = (of_char c :: nat)
      in (65 \<le> n \<and> n \<le> 90) \<or> (97 \<le> n \<and> n \<le> 122) \<or> (48 \<le> n \<and> n \<le> 57))"

text \<open>
  \<^verbatim>\<open>toLowerCase\<close> on one code unit below U+0100: A-Z and the Latin-1 capitals
  U+00C0 .. U+00DE (without the multiplication sign U+00D7) move up by 32.
\<close>

definition toLowerChar :: "char \<Rightarrow> char" where
  "toLowerChar c =
     (let n = (of_char c :: nat)
      in if (65 \<le> n \<and> n \<le> 90) \<or> (192 \<le> n \<and> n \<le> 222 \<and> n \<noteq> 215)
         then char_of (n + 32) else c)"

definition toLowerCase :: "string \<Rightarrow> string" where
  "toLowerCase s = map toLowerChar s"

text \<open>\<^verbatim>\<open>s.trim()\<close>: leading and trailing white space removed.\<close>

definition trim :: "string \<Rightarrow> string" where
  "trim s = rev (dropWhile isSpace (rev (dropWhile isSpace s)))"

text \<open>
  \<^verbatim>\<open>s.split(",")\<close>: the pieces between the commas; never the empty list
  (\<^verbatim>\<open>"".split(",")\<close> is \<^verbatim>\<open>[""]\<close>).
\<close>

fun splitOn :: "char \<Rightarrow> string \<Rightarrow> string list" where
  "splitOn d [] = [[]]"
| "splitOn d (c # cs) =
     (if c = d then [] # splitOn d cs
      else (c # hd (splitOn d cs)) # tl (splitOn d cs))"

text \<open>
  \<^verbatim>\<open>s.split(/\s+/)\<close>: the pieces between the maximal runs of white space. A run at
  the start or at the end of \<open>s\<close> leaves an empty piece there, and
  \<^verbatim>\<open>"".split(/\s+/)\<close> is \<^verbatim>\<open>[""]\<close>.
\<close>

function splitWs :: "string \<Rightarrow> string list" where
  "splitWs s =
     (if dropWhile (\<lambda>c. \<not> isSpace c) s = [] then [s]
      else takeWhile (\<lambda>c. \<not> isSpace c) s
             # splitWs (dropWhile isSpace (dropWhile (\<lambda>c. \<not> isSpace c) s)))"
  by pat_completeness auto
termination
proof (relation "measure length")
  show "wf (measure length)" by simp
next
  fix s :: string
  let ?r = "dropWhile (\<lambda>c. \<not> isSpace c) s"
  assume ne: "?r \<noteq> []"
  then have "isSpace (hd ?r)"
    using hd_dropWhile [of "\<lambda>c. \<not> isSpace c" s] by simp
  with ne have "dropWhile isSpace ?r = dropWhile isSpace (tl ?r)"
    by (cases ?r) simp_all
  moreover have "length (dropWhile isSpace (tl ?r)) \<le> length (tl ?r)"
    by (rule length_dropWhile_le)
  ultimately have "length (dropWhile isSpace ?r) \<le> length (tl ?r)"
    by (simp only:)
  also from ne have "\<dots> < length ?r"
    by (cases ?r) simp_all
  also have "\<dots> \<le> length s"
    by (rule length_dropWhile_le)
  finally show "(dropWhile isSpace ?r, s) \<in> measure length"
    by simp
qed

declare splitWs.simps [simp del]

section \<open>Helper functions of the key synthesis\<close>

text \<open>\<^verbatim>\<open>STOPWORDS = new Set(["a", "an", "the"])\<close>\<close>

definition STOPWORDS :: "string list" where
  "STOPWORDS = [''a'', ''an'', ''the'']"

text \<open>
  \<^verbatim>\<open>clean = (s) => s.toLowerCase().replace(/[^a-z0-9]+/g, "")\<close>: every run of
  characters outside \<^verbatim>\<open>[a-z0-9]\<close> is deleted, so exactly the characters inside stay.
\<close>

definition clean :: "string \<Rightarrow> string" where
  "clean s = filter isLowerAlnum (toLowerCase s)"

text \<open>
  \<^verbatim>\<open>stripNumericSuffix = (s) => s.replace(/\s+\d{1,4}$/, "")\<close>. The pattern is
  anchored at the end of the string and has no \<^verbatim>\<open>g\<close> flag, so the leftmost match
  is deleted: it exists iff the string ends with one to four digits that have
  white space right before them, and it then covers those digits together with
  the whole run of white space before them.
\<close>

definition stripNumericSuffix :: "string \<Rightarrow> string" where
  "stripNumericSuffix s =
     (let digits = takeWhile isDigit (rev s);
          lead = dropWhile isDigit (rev s)
      in if 1 \<le> length digits \<and> length digits \<le> 4 \<and> lead \<noteq> [] \<and> isSpace (hd lead)
         then rev (dropWhile isSpace lead)
         else s)"

text \<open>
  \<^verbatim>\<open>surname\<close>, applied to a string (\<^verbatim>\<open>String(input)\<close> is then the input itself).
  \<^verbatim>\<open>s.includes(",")\<close> is membership of the comma, \<^verbatim>\<open>s.split(",")[0]\<close> the head of
  the pieces, \<^verbatim>\<open>tokens[tokens.length - 1]\<close> the last piece.
\<close>

definition surname :: "string \<Rightarrow> string" where
  "surname input =
     (let s = stripNumericSuffix (trim input)
      in if CHR '','' \<in> set s then trim (hd (splitOn CHR '','' s))
         else last (splitWs s))"

text \<open>
  The token list of \<^verbatim>\<open>firstWord\<close>: split on white space, delete the leading and
  the trailing run of characters outside \<^verbatim>\<open>[A-Za-z0-9]\<close> of each piece
  (\<^verbatim>\<open>/^[^A-Za-z0-9]+|[^A-Za-z0-9]+$/g\<close>), keep the non-empty pieces
  (\<^verbatim>\<open>filter(Boolean)\<close>).
\<close>

definition stripPunct :: "string \<Rightarrow> string" where
  "stripPunct w =
     rev (dropWhile (\<lambda>c. \<not> isAlnum c) (rev (dropWhile (\<lambda>c. \<not> isAlnum c) w)))"

definition titleWords :: "string \<Rightarrow> string list" where
  "titleWords title = filter (\<lambda>w. w \<noteq> []) (map stripPunct (splitWs title))"

text \<open>
  The loop \<^verbatim>\<open>for (const w of words) if (!STOPWORDS.has(w.toLowerCase())) return w;\<close>:
  \<open>None\<close> when it runs to its end without returning.
\<close>

fun firstNonStopword :: "string list \<Rightarrow> string option" where
  "firstNonStopword [] = None"
| "firstNonStopword (w # ws) =
     (if toLowerCase w \<notin> set STOPWORDS then Some w else firstNonStopword ws)"

text \<open>After the loop: \<^verbatim>\<open>return words[0] ?? "paper"\<close>.\<close>

definition firstWord :: "string \<Rightarrow> string" where
  "firstWord title =
     (let ws = titleWords title
      in case firstNonStopword ws of
           Some w \<Rightarrow> w
         | None \<Rightarrow> (case ws of [] \<Rightarrow> ''paper'' | w # _ \<Rightarrow> w))"

section \<open>Records and the key and record synthesis\<close>

datatype Source = arxiv | crossref | dblp

text \<open>
  \<^verbatim>\<open>interface Paper\<close>. The field \<^verbatim>\<open>id\<close> is \<open>id_p\<close> here; the optional
  \<^verbatim>\<open>journal\<close> is \<open>None\<close> when absent.
\<close>

record Paper =
  source :: Source
  title :: string
  authors :: "string list"
  year :: string
  id_p :: string
  journal :: "string option"

abbreviation (input) NL :: string where
  "NL \<equiv> [CHR 0x0A]"

text \<open>\<^verbatim>\<open>xs.join(sep)\<close> on an array of strings.\<close>

fun join :: "string \<Rightarrow> string list \<Rightarrow> string" where
  "join sep [] = []"
| "join sep [x] = x"
| "join sep (x # y # zs) = x @ sep @ join sep (y # zs)"

text \<open>
  \<^verbatim>\<open>bibKey\<close>. \<^verbatim>\<open>p.authors[0] ?? "anon"\<close> is the first author, and \<^verbatim>\<open>"anon"\<close> when
  the array is empty (\<^verbatim>\<open>authors[0]\<close> is then \<^verbatim>\<open>undefined\<close>).
\<close>

definition bibKey :: "Paper \<Rightarrow> string" where
  "bibKey p =
     clean (surname (case authors p of [] \<Rightarrow> ''anon'' | a # _ \<Rightarrow> a))
       @ year p @ clean (firstWord (title p))"

text \<open>The result \<^verbatim>\<open>{ key, text }\<close> of \<^verbatim>\<open>bibtex\<close>; \<^verbatim>\<open>text\<close> is \<open>text_b\<close> here.\<close>

record BibEntry =
  key :: string
  text_b :: string

definition bibtex :: "Paper \<Rightarrow> BibEntry" where
  "bibtex p =
     (let k = bibKey p;
          auths = join '' and '' (authors p);
          base = ''@article{'' @ k @ '','' @ NL
                 @ ''  title  = {'' @ title p @ ''},'' @ NL
                 @ ''  author = {'' @ auths @ ''},'' @ NL
                 @ ''  year   = {'' @ year p @ ''},''
      in if source p = arxiv then
           \<lparr>key = k,
            text_b = base @ NL
                     @ ''  journal= {arXiv},'' @ NL
                     @ ''  eprint = {'' @ id_p p @ ''}'' @ NL
                     @ ''}'' @ NL\<rparr>
         else if source p = crossref then
           \<lparr>key = k,
            text_b = base @ NL
                     @ ''  journal= {''
                     @ (case journal p of None \<Rightarrow> ''journal'' | Some j \<Rightarrow> j) @ ''},'' @ NL
                     @ ''  doi    = {'' @ id_p p @ ''}'' @ NL
                     @ ''}'' @ NL\<rparr>
         else
           (let idField = (if prefix ''10.'' (id_p p)
                           then ''doi    = {'' @ id_p p @ ''}''
                           else ''url    = {'' @ id_p p @ ''}'')
            in \<lparr>key = k,
                text_b = base @ NL
                         @ ''  journal= {''
                         @ (case journal p of None \<Rightarrow> ''conference'' | Some j \<Rightarrow> j) @ ''},'' @ NL
                         @ ''  '' @ idField @ NL
                         @ ''}'' @ NL\<rparr>))"

text \<open>
  \<^verbatim>\<open>bibtex\<close> at run time. The function has no check and no \<^verbatim>\<open>throw\<close> of its own;
  what it does on an object that lacks a field of \<^verbatim>\<open>Paper\<close> is what the language
  does with \<^verbatim>\<open>undefined\<close>. In a \<open>JsPaper\<close> every field may be absent (\<open>None\<close>);
  the elements of \<^verbatim>\<open>authors\<close> are strings.
  \<^item> A template literal prints an absent field as \<^verbatim>\<open>undefined\<close> (\<open>showJs\<close>).
  \<^item> \<^verbatim>\<open>p.authors[0]\<close> (line 45) and \<^verbatim>\<open>p.authors.join\<close> (line 49) raise a
    \<^verbatim>\<open>TypeError\<close> when \<^verbatim>\<open>authors\<close> is absent.
  \<^item> \<^verbatim>\<open>title.split\<close> in \<^verbatim>\<open>firstWord\<close> (line 37) raises a \<^verbatim>\<open>TypeError\<close> when \<^verbatim>\<open>title\<close>
    is absent.
  \<^item> \<^verbatim>\<open>p.id.startsWith\<close> (line 78) raises a \<^verbatim>\<open>TypeError\<close> when \<^verbatim>\<open>id\<close> is absent; the
    line is reached when \<^verbatim>\<open>source\<close> is neither \<^verbatim>\<open>"arxiv"\<close> nor \<^verbatim>\<open>"crossref"\<close>.
  \<^item> An absent \<^verbatim>\<open>year\<close>, and an absent \<^verbatim>\<open>id\<close> in the two other branches, is only
    printed.
\<close>

datatype error = TypeError

record JsPaper =
  js_source :: "Source option"
  js_title :: "string option"
  js_authors :: "string list option"
  js_year :: "string option"
  js_id :: "string option"
  js_journal :: "string option"

definition showJs :: "string option \<Rightarrow> string" where
  "showJs x = (case x of None \<Rightarrow> ''undefined'' | Some v \<Rightarrow> v)"

text \<open>\<^verbatim>\<open>bibKey\<close>: the template literal evaluates its three parts from left to right.\<close>

definition bibKeyJs :: "JsPaper \<Rightarrow> error + string" where
  "bibKeyJs r =
     (case js_authors r of
        None \<Rightarrow> Inl TypeError
      | Some auths \<Rightarrow>
          (case js_title r of
             None \<Rightarrow> Inl TypeError
           | Some t \<Rightarrow>
               Inr (clean (surname (case auths of [] \<Rightarrow> ''anon'' | a # _ \<Rightarrow> a))
                      @ showJs (js_year r) @ clean (firstWord t))))"

definition bibtexJs :: "JsPaper \<Rightarrow> error + BibEntry" where
  "bibtexJs r =
     (case bibKeyJs r of
        Inl e \<Rightarrow> Inl e
      | Inr k \<Rightarrow>
          (case js_authors r of
             None \<Rightarrow> Inl TypeError
           | Some auths \<Rightarrow>
               (let base = ''@article{'' @ k @ '','' @ NL
                           @ ''  title  = {'' @ showJs (js_title r) @ ''},'' @ NL
                           @ ''  author = {'' @ join '' and '' auths @ ''},'' @ NL
                           @ ''  year   = {'' @ showJs (js_year r) @ ''},''
                in if js_source r = Some arxiv then
                     Inr \<lparr>key = k,
                          text_b = base @ NL
                                   @ ''  journal= {arXiv},'' @ NL
                                   @ ''  eprint = {'' @ showJs (js_id r) @ ''}'' @ NL
                                   @ ''}'' @ NL\<rparr>
                   else if js_source r = Some crossref then
                     Inr \<lparr>key = k,
                          text_b = base @ NL
                                   @ ''  journal= {''
                                   @ (case js_journal r of None \<Rightarrow> ''journal'' | Some j \<Rightarrow> j)
                                   @ ''},'' @ NL
                                   @ ''  doi    = {'' @ showJs (js_id r) @ ''}'' @ NL
                                   @ ''}'' @ NL\<rparr>
                   else
                     (case js_id r of
                        None \<Rightarrow> Inl TypeError
                      | Some i \<Rightarrow>
                          (let idField = (if prefix ''10.'' i
                                          then ''doi    = {'' @ i @ ''}''
                                          else ''url    = {'' @ i @ ''}'')
                           in Inr \<lparr>key = k,
                                   text_b = base @ NL
                                            @ ''  journal= {''
                                            @ (case js_journal r of
                                                 None \<Rightarrow> ''conference'' | Some j \<Rightarrow> j)
                                            @ ''},'' @ NL
                                            @ ''  '' @ idField @ NL
                                            @ ''}'' @ NL\<rparr>)))))"

text \<open>A \<^verbatim>\<open>Paper\<close> as the object the run time sees: every required field present.\<close>

definition ofPaper :: "Paper \<Rightarrow> JsPaper" where
  "ofPaper p =
     \<lparr>js_source = Some (source p), js_title = Some (title p), js_authors = Some (authors p),
      js_year = Some (year p), js_id = Some (id_p p), js_journal = journal p\<rparr>"

section \<open>Source adapters: from a raw item to a record\<close>

text \<open>
  The argument of \<^verbatim>\<open>toAuthorStr\<close> is a string or an object whose fields \<^verbatim>\<open>text\<close>,
  \<^verbatim>\<open>#text\<close>, \<^verbatim>\<open>name\<close>, \<^verbatim>\<open>family\<close>, \<^verbatim>\<open>given\<close> are strings when present.
\<close>

datatype RawAuthor =
    AuthorStr string
  | AuthorObj (a_text: "string option") (a_hash_text: "string option")
              (a_name: "string option") (a_family: "string option") (a_given: "string option")

fun toAuthorStr :: "RawAuthor \<Rightarrow> string" where
  "toAuthorStr (AuthorStr a) = stripNumericSuffix (trim a)"
| "toAuthorStr (AuthorObj txt htxt nm fam giv) =
     stripNumericSuffix (trim
       (case txt of Some r \<Rightarrow> r | None \<Rightarrow>
        (case htxt of Some r \<Rightarrow> r | None \<Rightarrow>
         (case nm of Some r \<Rightarrow> r | None \<Rightarrow>
            (case fam of Some f \<Rightarrow> f | None \<Rightarrow> [])
              @ '' '' @ (case giv of Some g \<Rightarrow> g | None \<Rightarrow> [])))))"

text \<open>\<^verbatim>\<open>s.replace(/\s+/g, " ")\<close>: every maximal run of white space becomes one space.\<close>

function collapseWs :: "string \<Rightarrow> string" where
  "collapseWs [] = []"
| "collapseWs (c # cs) =
     (if isSpace c then CHR '' '' # collapseWs (dropWhile isSpace cs)
      else c # collapseWs cs)"
  by pat_completeness auto
termination
  by (relation "measure length") (auto simp: le_imp_less_Suc length_dropWhile_le)

text \<open>
  The title of the record \<^verbatim>\<open>searchArxiv\<close> builds from an entry (\<^verbatim>\<open>e.title\<close> a string):
  \<^verbatim>\<open>e.title.trim().replace(/\s+/g, " ")\<close>.
\<close>

definition arxivTitle :: "string \<Rightarrow> string" where
  "arxivTitle t = collapseWs (trim t)"

text \<open>
  The title of the record \<^verbatim>\<open>searchCrossref\<close> builds from an item:
  \<^verbatim>\<open>it.title?.[0] ?? "(untitled)"\<close>, with \<^verbatim>\<open>it.title\<close> absent or an array of strings.
\<close>

definition crossrefTitle :: "string list option \<Rightarrow> string" where
  "crossrefTitle ts =
     (case ts of None \<Rightarrow> ''(untitled)'' | Some [] \<Rightarrow> ''(untitled)'' | Some (t # _) \<Rightarrow> t)"

text \<open>
  \<^verbatim>\<open>hit.info\<close> of a DBLP hit; every field may be absent and is a string when
  present. \<^verbatim>\<open>info.authors?.author\<close> is absent, one author or an array of authors.
\<close>

datatype DblpAuthors = OneAuthor RawAuthor | ManyAuthors "RawAuthor list"

record DblpInfo =
  info_title :: "string option"
  info_authors :: "DblpAuthors option"
  info_year :: "string option"
  info_doi :: "string option"
  info_url :: "string option"
  info_venue :: "string option"
  info_journal :: "string option"
  info_booktitle :: "string option"
  info_type :: "string option"

text \<open>The callback of \<^verbatim>\<open>hits.map\<close> in \<^verbatim>\<open>searchDblp\<close>, on \<^verbatim>\<open>hit.info\<close>.\<close>

definition dblpPaper :: "DblpInfo \<Rightarrow> Paper" where
  "dblpPaper info =
     \<lparr>source = dblp,
      title = collapseWs (case info_title info of None \<Rightarrow> ''(untitled)'' | Some t \<Rightarrow> t),
      authors = (case info_authors info of
                   None \<Rightarrow> []
                 | Some (ManyAuthors rawAuth) \<Rightarrow> map toAuthorStr rawAuth
                 | Some (OneAuthor rawAuth) \<Rightarrow> [toAuthorStr rawAuth]),
      year = (case info_year info of None \<Rightarrow> ''????'' | Some y \<Rightarrow> y),
      id_p = (case info_doi info of Some d \<Rightarrow> d | None \<Rightarrow>
               (case info_url info of Some u \<Rightarrow> u | None \<Rightarrow> [])),
      journal = (case info_venue info of Some v \<Rightarrow> Some v | None \<Rightarrow>
                  (case info_journal info of Some j \<Rightarrow> Some j | None \<Rightarrow>
                    (case info_booktitle info of Some b \<Rightarrow> Some b | None \<Rightarrow>
                       map_option (map (\<lambda>c. if c = CHR ''_'' then CHR '' '' else c))
                                  (info_type info))))\<rparr>"

definition searchDblp :: "DblpInfo list \<Rightarrow> Paper list" where
  "searchDblp hits = map dblpPaper hits"

section \<open>The search session\<close>











section \<open>Predicates and sample inputs used in the statements\<close>

text \<open>
  A string is white-space-collapsed when its only white-space character is the
  space and no two white-space characters are adjacent.
\<close>

fun collapsed :: "string \<Rightarrow> bool" where
  "collapsed [] = True"
| "collapsed (c # cs) =
     ((isSpace c \<longrightarrow> c = CHR '' '' \<and> (cs = [] \<or> \<not> isSpace (hd cs))) \<and> collapsed cs)"

text \<open>
  The surname rule in the words of the specification, for comparison with
  \<open>surname\<close>: strip the numeric suffix; with a comma, everything before the first
  comma; otherwise the last white-space-delimited token. It has no \<^verbatim>\<open>trim\<close>.
\<close>

definition extractSurname_spec :: "string \<Rightarrow> string" where
  "extractSurname_spec s =
     (let t = stripNumericSuffix s
      in if CHR '','' \<in> set t then takeWhile (\<lambda>c. c \<noteq> CHR '','') t
         else last (splitWs t))"

definition tongRecord :: Paper where
  "tongRecord =
     \<lparr>source = arxiv, title = ''Diffusion Models Beat GANs'', authors = [''Tong, Alex''],
      year = ''2024'', id_p = ''2401.00001'', journal = None\<rparr>"

definition anonRecord :: Paper where
  "anonRecord =
     \<lparr>source = crossref, title = ''The Art of Keys'', authors = [], year = ''2020'',
      id_p = ''10.1000/1'', journal = None\<rparr>"

definition doiHit :: Paper where
  "doiHit =
     \<lparr>source = dblp, title = ''Graphs'', authors = [''Ada Roe''], year = ''2019'',
      id_p = ''10.1145/3.4'', journal = Some ''SIGMOD''\<rparr>"

definition urlHit :: Paper where
  "urlHit =
     \<lparr>source = dblp, title = ''Graphs'', authors = [''Ada Roe''], year = ''2019'',
      id_p = ''https://dblp.org/rec/x'', journal = None\<rparr>"

definition neuripsInfo :: DblpInfo where
  "neuripsInfo =
     \<lparr>info_title = Some ''Deep  Nets'',
      info_authors = Some (ManyAuthors [AuthorObj (Some ''Jianxin Wang 3'') None None None None]),
      info_year = Some ''2021'', info_doi = Some ''10.5555/1'', info_url = None,
      info_venue = Some ''NeurIPS 2'', info_journal = None, info_booktitle = None,
      info_type = None\<rparr>"

definition bareInfo :: DblpInfo where
  "bareInfo =
     \<lparr>info_title = Some [], info_authors = None, info_year = None, info_doi = None,
      info_url = None, info_venue = None, info_journal = None, info_booktitle = None,
      info_type = Some ''Conference_and_Workshop_Papers''\<rparr>"

text \<open>
  Objects that lack one field: the authors; the identifier, on a DBLP record;
  the year.
\<close>

definition jsNoAuthors :: JsPaper where
  "jsNoAuthors = (ofPaper tongRecord)\<lparr>js_authors := None\<rparr>"

definition jsNoId :: JsPaper where
  "jsNoId = (ofPaper urlHit)\<lparr>js_id := None\<rparr>"

definition jsNoYear :: JsPaper where
  "jsNoYear = (ofPaper tongRecord)\<lparr>js_year := None\<rparr>"



section \<open>Facts about the string helpers\<close>

lemma comma_class [simp]: "\<not> isSpace CHR '',''" "\<not> isDigit CHR '',''"
  by (simp_all add: isSpace_def isDigit_def)

lemma last_dropWhile: "dropWhile P xs \<noteq> [] \<Longrightarrow> last (dropWhile P xs) = last xs"
  by (induction xs) (auto split: if_splits)

lemma ends_stripped:
  assumes "rev (dropWhile P (rev (dropWhile P s))) \<noteq> []"
  shows "\<not> P (hd (rev (dropWhile P (rev (dropWhile P s)))))"
    and "\<not> P (last (rev (dropWhile P (rev (dropWhile P s)))))"
proof -
  let ?u = "dropWhile P s"
  let ?v = "dropWhile P (rev ?u)"
  from assms have v: "?v \<noteq> []" by simp
  have u: "?u \<noteq> []"
  proof
    assume "?u = []"
    then have "?v = []" by (simp only: rev.simps dropWhile.simps)
    with v show False ..
  qed
  have "last (rev ?v) = hd ?v"
    by (simp add: last_rev)
  moreover have "\<not> P (hd ?v)"
    using v by (rule hd_dropWhile)
  ultimately show "\<not> P (last (rev ?v))" by simp
  have "hd (rev ?v) = last ?v"
    by (simp add: hd_rev)
  also have "\<dots> = last (rev ?u)"
    using v by (rule last_dropWhile)
  also have "\<dots> = hd ?u"
    by (simp add: last_rev)
  finally show "\<not> P (hd (rev ?v))"
    using hd_dropWhile [OF u] by simp
qed

lemma trim_decomp:
  "\<exists>a b. s = a @ trim s @ b \<and> (\<forall>c\<in>set a. isSpace c) \<and> (\<forall>c\<in>set b. isSpace c)"
proof -
  let ?u = "dropWhile isSpace s"
  let ?b = "rev (takeWhile isSpace (rev ?u))"
  have "rev (takeWhile isSpace (rev ?u) @ dropWhile isSpace (rev ?u)) = ?u"
    by (simp only: takeWhile_dropWhile_id rev_rev_ident)
  then have "rev (dropWhile isSpace (rev ?u)) @ ?b = ?u"
    by (simp only: rev_append)
  then have u: "?u = trim s @ ?b"
    by (simp only: trim_def)
  have "s = takeWhile isSpace s @ ?u" by simp
  with u have "s = takeWhile isSpace s @ trim s @ ?b" by simp
  moreover have "\<forall>c\<in>set (takeWhile isSpace s). isSpace c"
    by (auto dest: set_takeWhileD)
  moreover have "\<forall>c\<in>set ?b. isSpace c"
    by (auto dest: set_takeWhileD)
  ultimately show ?thesis by blast
qed

lemma trim_Nil_iff: "trim s = [] \<longleftrightarrow> (\<forall>c\<in>set s. isSpace c)"
proof
  assume "trim s = []"
  with trim_decomp [of s] show "\<forall>c\<in>set s. isSpace c"
    by (metis append_Nil set_append Un_iff)
next
  assume "\<forall>c\<in>set s. isSpace c"
  then have "dropWhile isSpace s = []"
    by (simp only: dropWhile_eq_Nil_conv)
  then show "trim s = []"
    by (simp only: trim_def rev.simps dropWhile.simps)
qed

lemma trim_ends:
  assumes "trim s \<noteq> []"
  shows "\<not> isSpace (hd (trim s))" and "\<not> isSpace (last (trim s))"
  using assms ends_stripped [of isSpace s] unfolding trim_def by blast+

lemma strip_cases:
  obtains (same) "stripNumericSuffix x = x"
  | (cut) ds lead where "rev x = ds @ lead" "\<forall>c\<in>set ds. isDigit c"
      "lead \<noteq> []" "isSpace (hd lead)"
      "stripNumericSuffix x = rev (dropWhile isSpace lead)"
      "1 \<le> length ds" "length ds \<le> 4"
proof (cases "stripNumericSuffix x = x")
  case True
  then show ?thesis by (rule same)
next
  case False
  let ?ds = "takeWhile isDigit (rev x)"
  let ?lead = "dropWhile isDigit (rev x)"
  from False have c: "?lead \<noteq> []" "isSpace (hd ?lead)"
    "stripNumericSuffix x = rev (dropWhile isSpace ?lead)"
    "1 \<le> length ?ds" "length ?ds \<le> 4"
    by (auto simp: stripNumericSuffix_def Let_def split: if_splits)
  have "rev x = ?ds @ ?lead" by simp
  moreover have "\<forall>c\<in>set ?ds. isDigit c" by (auto dest: set_takeWhileD)
  ultimately show ?thesis using c by (rule cut)
qed

lemma strip_shape:
  assumes "stripNumericSuffix x \<noteq> x"
  shows "\<exists>ws ds. x = stripNumericSuffix x @ ws @ ds
           \<and> ws \<noteq> [] \<and> (\<forall>c\<in>set ws. isSpace c) \<and> (\<forall>c\<in>set ds. isDigit c)
           \<and> 1 \<le> length ds \<and> length ds \<le> 4
           \<and> (stripNumericSuffix x = [] \<or> \<not> isSpace (last (stripNumericSuffix x)))"
proof (cases x rule: strip_cases)
  case same
  with assms show ?thesis by simp
next
  case (cut ds lead)
  let ?ws = "rev (takeWhile isSpace lead)"
  have "lead = takeWhile isSpace lead @ dropWhile isSpace lead" by simp
  then have "rev lead = rev (dropWhile isSpace lead) @ ?ws"
    by (metis rev_append)
  moreover from cut(1) have "x = rev lead @ rev ds"
    by (metis rev_append rev_rev_ident)
  ultimately have x: "x = stripNumericSuffix x @ ?ws @ rev ds"
    using cut(5) by simp
  have ne: "?ws \<noteq> []"
    using cut(3,4) by (cases lead) simp_all
  have ws: "\<forall>c\<in>set ?ws. isSpace c"
    by (auto dest: set_takeWhileD)
  have ds: "\<forall>c\<in>set (rev ds). isDigit c"
    using cut(2) by simp
  have len: "1 \<le> length (rev ds) \<and> length (rev ds) \<le> 4"
    using cut(6,7) by simp
  have lst: "stripNumericSuffix x = [] \<or> \<not> isSpace (last (stripNumericSuffix x))"
  proof (cases "dropWhile isSpace lead = []")
    case True
    with cut(5) show ?thesis by simp
  next
    case False
    then have "\<not> isSpace (hd (dropWhile isSpace lead))"
      by (rule hd_dropWhile)
    moreover have "last (stripNumericSuffix x) = hd (dropWhile isSpace lead)"
      using cut(5) by (simp add: last_rev)
    ultimately show ?thesis by simp
  qed
  from x ne ws ds len lst show ?thesis by blast
qed

lemma strip_decomp:
  "\<exists>suf. x = stripNumericSuffix x @ suf \<and> (\<forall>c\<in>set suf. isSpace c \<or> isDigit c)"
proof (cases x rule: strip_cases)
  case same
  then show ?thesis by simp
next
  case (cut ds lead)
  have "lead = takeWhile isSpace lead @ dropWhile isSpace lead" by simp
  then have "rev lead = rev (dropWhile isSpace lead) @ rev (takeWhile isSpace lead)"
    by (metis rev_append)
  moreover from cut(1) have "x = rev lead @ rev ds"
    by (metis rev_append rev_rev_ident)
  ultimately have "x = stripNumericSuffix x @ (rev (takeWhile isSpace lead) @ rev ds)"
    using cut(5) by simp
  moreover have "\<forall>c\<in>set (rev (takeWhile isSpace lead) @ rev ds). isSpace c \<or> isDigit c"
    using cut(2) by (auto dest: set_takeWhileD)
  ultimately show ?thesis by blast
qed

lemma strip_last:
  assumes "stripNumericSuffix x \<noteq> []" and "\<not> isSpace (last x)"
  shows "\<not> isSpace (last (stripNumericSuffix x))"
proof (cases x rule: strip_cases)
  case same
  with assms show ?thesis by simp
next
  case (cut ds lead)
  with assms(1) have ne: "dropWhile isSpace lead \<noteq> []" by simp
  then have "last (stripNumericSuffix x) = hd (dropWhile isSpace lead)"
    using cut(5) by (simp add: last_rev)
  then show ?thesis
    using ne hd_dropWhile [of isSpace lead] by simp
qed

lemma strip_nonempty:
  assumes "x \<noteq> []" and "\<not> isSpace (hd x)"
  shows "stripNumericSuffix x \<noteq> []"
proof (cases x rule: strip_cases)
  case same
  with assms show ?thesis by simp
next
  case (cut ds lead)
  from cut(1) have "x = rev lead @ rev ds"
    by (metis rev_append rev_rev_ident)
  with cut(3) have "hd x = last lead"
    by (simp add: hd_rev)
  with assms(2) cut(3) have "\<exists>c\<in>set lead. \<not> isSpace c"
    using last_in_set by metis
  then have "dropWhile isSpace lead \<noteq> []" by simp
  with cut(5) show ?thesis by simp
qed

lemma hd_splitOn: "hd (splitOn d s) = takeWhile (\<lambda>c. c \<noteq> d) s"
  by (induction s) simp_all

lemma lastTok_append:
  assumes "p = [] \<or> isSpace (last p)"
  shows "takeWhile (\<lambda>c. \<not> isSpace c) (rev (p @ w)) = takeWhile (\<lambda>c. \<not> isSpace c) (rev w)"
proof -
  have "takeWhile (\<lambda>c. \<not> isSpace c) (rev p) = []"
    using assms by (auto simp: takeWhile_eq_Nil_iff hd_rev)
  then have "takeWhile (\<lambda>c. \<not> isSpace c) (rev w @ rev p) = takeWhile (\<lambda>c. \<not> isSpace c) (rev w)"
  proof (cases "\<forall>c\<in>set (rev w). \<not> isSpace c")
    case True
    then have "takeWhile (\<lambda>c. \<not> isSpace c) (rev w) = rev w"
      by (simp only: takeWhile_eq_all_conv)
    moreover from True
    have "takeWhile (\<lambda>c. \<not> isSpace c) (rev w @ rev p) =
            rev w @ takeWhile (\<lambda>c. \<not> isSpace c) (rev p)"
      by (intro takeWhile_append2) blast
    ultimately show ?thesis
      using \<open>takeWhile (\<lambda>c. \<not> isSpace c) (rev p) = []\<close> by (simp only: append_Nil2)
  next
    case False
    then show ?thesis by auto
  qed
  then show ?thesis
    by (simp only: rev_append)
qed

lemma splitWs_unfold:
  "dropWhile (\<lambda>c. \<not> isSpace c) s = [] \<Longrightarrow> splitWs s = [s]"
  "dropWhile (\<lambda>c. \<not> isSpace c) s \<noteq> [] \<Longrightarrow>
     splitWs s = takeWhile (\<lambda>c. \<not> isSpace c) s
                   # splitWs (dropWhile isSpace (dropWhile (\<lambda>c. \<not> isSpace c) s))"
  using splitWs.simps [of s] by auto

lemma splitWs_nonempty: "splitWs s \<noteq> []"
  by (cases "dropWhile (\<lambda>c. \<not> isSpace c) s = []") (simp_all add: splitWs_unfold)

lemma last_splitWs: "last (splitWs s) = rev (takeWhile (\<lambda>c. \<not> isSpace c) (rev s))"
proof (induction s rule: splitWs.induct)
  case (1 s)
  let ?r = "dropWhile (\<lambda>c. \<not> isSpace c) s"
  show ?case
  proof (cases "?r = []")
    case True
    then have "\<forall>c\<in>set (rev s). \<not> isSpace c" by simp
    then have "takeWhile (\<lambda>c. \<not> isSpace c) (rev s) = rev s"
      by (simp only: takeWhile_eq_all_conv)
    then have "rev (takeWhile (\<lambda>c. \<not> isSpace c) (rev s)) = s"
      by (simp only: rev_rev_ident)
    moreover from True have "last (splitWs s) = s"
      by (simp add: splitWs_unfold)
    ultimately show ?thesis by (simp only:)
  next
    case False
    let ?w = "dropWhile isSpace ?r"
    let ?p = "takeWhile (\<lambda>c. \<not> isSpace c) s @ takeWhile isSpace ?r"
    have sp: "isSpace (hd ?r)"
      using False hd_dropWhile [of "\<lambda>c. \<not> isSpace c" s] by simp
    have ne: "takeWhile isSpace ?r \<noteq> []"
      using False sp by (cases ?r) simp_all
    then have "last (takeWhile isSpace ?r) \<in> set (takeWhile isSpace ?r)"
      by (rule last_in_set)
    then have "isSpace (last (takeWhile isSpace ?r))"
      by (rule set_takeWhileD [THEN conjunct2])
    with ne have p: "?p = [] \<or> isSpace (last ?p)"
      by simp
    have "s = takeWhile (\<lambda>c. \<not> isSpace c) s @ ?r"
      by (simp only: takeWhile_dropWhile_id)
    also have "?r = takeWhile isSpace ?r @ ?w"
      by (simp only: takeWhile_dropWhile_id)
    finally have s: "s = ?p @ ?w"
      by (simp only: append_assoc)
    have "last (splitWs s) = last (splitWs ?w)"
      using False by (simp add: splitWs_unfold splitWs_nonempty)
    also have "\<dots> = rev (takeWhile (\<lambda>c. \<not> isSpace c) (rev ?w))"
      using False by (rule "1.IH")
    also have "takeWhile (\<lambda>c. \<not> isSpace c) (rev ?w) = takeWhile (\<lambda>c. \<not> isSpace c) (rev (?p @ ?w))"
      using lastTok_append [OF p] by (rule sym)
    also have "?p @ ?w = s"
      using s by (rule sym)
    finally show ?thesis .
  qed
qed

lemma surname_unfold:
  "surname s =
     (let t = stripNumericSuffix (trim s)
      in if CHR '','' \<in> set t then trim (takeWhile (\<lambda>c. c \<noteq> CHR '','') t)
         else rev (takeWhile (\<lambda>c. \<not> isSpace c) (rev t)))"
  by (simp add: surname_def Let_def hd_splitOn last_splitWs)

lemma strip_exact:
  assumes ws: "ws \<noteq> []" "\<forall>c\<in>set ws. isSpace c"
    and ds: "\<forall>c\<in>set ds. isDigit c" "1 \<le> length ds" "length ds \<le> 4"
    and y: "y = [] \<or> \<not> isSpace (last y)"
  shows "stripNumericSuffix (y @ ws @ ds) = y"
proof -
  have nd: "\<not> isDigit c" if "isSpace c" for c
    using that by (auto simp: isSpace_def isDigit_def)
  let ?lead = "rev ws @ rev y"
  have r: "rev (y @ ws @ ds) = rev ds @ ?lead" by simp
  have h: "hd ?lead = last ws" using ws(1) by (simp add: hd_rev)
  have hs: "isSpace (hd ?lead)" using h ws by simp
  have lne: "?lead \<noteq> []" using ws(1) by simp
  have "\<not> isDigit (hd ?lead)" using hs by (rule nd)
  then have dl: "takeWhile isDigit ?lead = []" "dropWhile isDigit ?lead = ?lead"
    using lne by (simp_all add: takeWhile_eq_Nil_iff dropWhile_eq_self_iff)
  have tw: "takeWhile isDigit (rev (y @ ws @ ds)) = rev ds"
    using ds(1) dl(1) by (simp add: takeWhile_append)
  have dw: "dropWhile isDigit (rev (y @ ws @ ds)) = ?lead"
    using ds(1) dl(2) by (simp add: dropWhile_append)
  have "dropWhile isSpace (rev y) = rev y"
    using y by (auto simp: dropWhile_eq_self_iff hd_rev)
  then have "dropWhile isSpace ?lead = rev y"
    using ws(2) by (simp add: dropWhile_append)
  then show ?thesis
    unfolding stripNumericSuffix_def Let_def tw dw
    using ds(2,3) lne hs by simp
qed

lemma stripPunct_ends:
  "stripPunct w \<noteq> [] \<Longrightarrow> isAlnum (hd (stripPunct w)) \<and> isAlnum (last (stripPunct w))"
  unfolding stripPunct_def
  using ends_stripped [of "\<lambda>c. \<not> isAlnum c" w] by blast

lemma titleWords_shape:
  "\<forall>w\<in>set (titleWords t). w \<noteq> [] \<and> isAlnum (hd w) \<and> isAlnum (last w)"
  by (auto simp: titleWords_def stripPunct_ends)

lemma firstNonStopword_None:
  "(\<forall>w\<in>set ws. toLowerCase w \<in> set STOPWORDS) \<Longrightarrow> firstNonStopword ws = None"
  by (induction ws) simp_all

lemma firstNonStopword_Some:
  "(\<forall>v\<in>set pre. toLowerCase v \<in> set STOPWORDS) \<Longrightarrow> toLowerCase w \<notin> set STOPWORDS \<Longrightarrow>
     firstNonStopword (pre @ w # post) = Some w"
  by (induction pre) simp_all

lemma collapseWs_hd:
  "xs \<noteq> [] \<Longrightarrow> \<not> isSpace (hd xs) \<Longrightarrow> collapseWs xs \<noteq> [] \<and> hd (collapseWs xs) = hd xs"
  by (cases xs) simp_all

lemma collapsed_collapseWs: "collapsed (collapseWs s)"
proof (induction s rule: collapseWs.induct)
  case 1
  show ?case by simp
next
  case (2 c cs)
  show ?case
  proof (cases "isSpace c")
    case True
    let ?r = "dropWhile isSpace cs"
    have "collapseWs ?r = [] \<or> \<not> isSpace (hd (collapseWs ?r))"
    proof (cases "?r = []")
      case True
      then have "collapseWs ?r = []" by (simp only: collapseWs.simps)
      then show ?thesis ..
    next
      case False
      then have "\<not> isSpace (hd ?r)" by (rule hd_dropWhile)
      with False have "hd (collapseWs ?r) = hd ?r"
        by (rule collapseWs_hd [THEN conjunct2])
      with \<open>\<not> isSpace (hd ?r)\<close> show ?thesis by simp
    qed
    with True "2.IH"(1) show ?thesis by simp
  next
    case False
    with "2.IH"(2) show ?thesis by simp
  qed
qed

lemma collapseWs_Nil_iff: "collapseWs s = [] \<longleftrightarrow> s = []"
  by (cases s) simp_all


section \<open>Facts about the record text and the session\<close>

lemma key_bibtex: "key (bibtex p) = bibKey p"
  by (simp add: bibtex_def Let_def)

lemma bibtex_dblp_text:
  assumes "source p = dblp"
  shows "\<exists>pre. text_b (bibtex p) =
           pre @ ''  journal= {''
               @ (case journal p of None \<Rightarrow> ''conference'' | Some j \<Rightarrow> j) @ ''},'' @ NL
               @ ''  '' @ (if prefix ''10.'' (id_p p) then ''doi'' else ''url'')
               @ ''    = {'' @ id_p p @ ''}'' @ NL @ ''}'' @ NL"
  using assms by (simp add: bibtex_def Let_def)








section \<open>Key and record synthesis\<close>

text \<open>
  C1. For every record, the key that \<open>bibtex\<close> returns is
  \<open>clean (surname a) @ year @ clean (firstWord title)\<close>, where \<open>a\<close> is the first author
  when the author list is non-empty and the literal \<open>anon\<close> otherwise. With an empty
  author list the surname fragment is \<open>clean ''anon''\<close>. The record of Alex Tong's
  2024 arXiv paper gets the key \<open>tong2024diffusion\<close>, and its text contains
  \<open>eprint = {2401.00001}\<close> and no \<open>doi\<close>.
\<close>

theorem bibtex_key_formula:
  "key (bibtex p) =
     clean (surname (if authors p = [] then ''anon'' else authors p ! 0))
       @ year p @ clean (firstWord (title p))
   \<and> (authors p = [] \<longrightarrow>
        key (bibtex p) = clean ''anon'' @ year p @ clean (firstWord (title p)))
   \<and> key (bibtex tongRecord) = ''tong2024diffusion''
   \<and> sublist ''eprint = {2401.00001}'' (text_b (bibtex tongRecord))
   \<and> \<not> sublist ''doi'' (text_b (bibtex tongRecord))"
proof -
  have a: "key (bibtex p) =
     clean (surname (if authors p = [] then ''anon'' else authors p ! 0))
       @ year p @ clean (firstWord (title p))"
    by (cases "authors p") (simp_all add: key_bibtex bibKey_def)
  have "clean (surname ''anon'') = clean ''anon''"
    by code_simp
  then have b: "authors p = [] \<longrightarrow>
        key (bibtex p) = clean ''anon'' @ year p @ clean (firstWord (title p))"
    by (simp add: key_bibtex bibKey_def)
  have c: "key (bibtex tongRecord) = ''tong2024diffusion''"
    by code_simp
  have d: "sublist ''eprint = {2401.00001}'' (text_b (bibtex tongRecord))"
    by code_simp
  have e: "\<not> sublist ''doi'' (text_b (bibtex tongRecord))"
    by code_simp
  from a b c d e show ?thesis by blast
qed

theorem bibtex_key_formula_witness:
  "authors anonRecord = [] \<and> key (bibtex anonRecord) = ''anon2020art''"
proof -
  have a: "authors anonRecord = []"
    by (simp add: anonRecord_def)
  have b: "clean ''anon'' @ year anonRecord @ clean (firstWord (title anonRecord)) = ''anon2020art''"
    by code_simp
  have "authors anonRecord = [] \<longrightarrow> key (bibtex anonRecord) =
          clean ''anon'' @ year anonRecord @ clean (firstWord (title anonRecord))"
    using bibtex_key_formula [of anonRecord] by (rule conjunct2 [THEN conjunct1])
  with a have "key (bibtex anonRecord) =
          clean ''anon'' @ year anonRecord @ clean (firstWord (title anonRecord))"
    by blast
  with a b show ?thesis
    by (simp only: simp_thms)
qed

text \<open>
  C7. For every DBLP record the text ends with the identifier field: a \<open>doi\<close> field
  when the identifier starts with \<open>10.\<close>, a \<open>url\<close> field otherwise. The identifier
  \<open>10.1145/3.4\<close> gives a \<open>doi\<close> field; \<open>https://dblp.org/rec/x\<close> gives a \<open>url\<close> field
  and not a \<open>doi\<close> field.
\<close>

theorem dblp_identifier_field:
  assumes "source p = dblp"
  shows "(prefix ''10.'' (id_p p) \<longrightarrow>
            suffix (''  doi    = {'' @ id_p p @ ''}'' @ NL @ ''}'' @ NL) (text_b (bibtex p)))
       \<and> (\<not> prefix ''10.'' (id_p p) \<longrightarrow>
            suffix (''  url    = {'' @ id_p p @ ''}'' @ NL @ ''}'' @ NL) (text_b (bibtex p)))
       \<and> (id_p p = ''10.1145/3.4'' \<longrightarrow>
            sublist ''doi    = {10.1145/3.4}'' (text_b (bibtex p)))
       \<and> (id_p p = ''https://dblp.org/rec/x'' \<longrightarrow>
            sublist ''url    = {https://dblp.org/rec/x}'' (text_b (bibtex p))
            \<and> \<not> suffix (''  doi    = {https://dblp.org/rec/x}'' @ NL @ ''}'' @ NL)
                        (text_b (bibtex p)))"
proof -
  from bibtex_dblp_text [OF assms] obtain pre0 where
    "text_b (bibtex p) =
           pre0 @ ''  journal= {''
               @ (case journal p of None \<Rightarrow> ''conference'' | Some j \<Rightarrow> j) @ ''},'' @ NL
               @ ''  '' @ (if prefix ''10.'' (id_p p) then ''doi'' else ''url'')
               @ ''    = {'' @ id_p p @ ''}'' @ NL @ ''}'' @ NL" ..
  then obtain pre where
    t: "text_b (bibtex p) =
           pre @ ''  '' @ (if prefix ''10.'' (id_p p) then ''doi'' else ''url'')
               @ ''    = {'' @ id_p p @ ''}'' @ NL @ ''}'' @ NL"
    by (metis append_assoc)
  have a: "prefix ''10.'' (id_p p) \<longrightarrow>
            suffix (''  doi    = {'' @ id_p p @ ''}'' @ NL @ ''}'' @ NL) (text_b (bibtex p))"
    by (simp add: t suffix_def)
  have b: "\<not> prefix ''10.'' (id_p p) \<longrightarrow>
            suffix (''  url    = {'' @ id_p p @ ''}'' @ NL @ ''}'' @ NL) (text_b (bibtex p))"
    by (simp add: t suffix_def)
  have c: "id_p p = ''10.1145/3.4'' \<longrightarrow>
            sublist ''doi    = {10.1145/3.4}'' (text_b (bibtex p))"
  proof
    assume i: "id_p p = ''10.1145/3.4''"
    have "text_b (bibtex p) = (pre @ ''  '') @ ''doi    = {10.1145/3.4}'' @ (NL @ ''}'' @ NL)"
      by (simp add: t i)
    then show "sublist ''doi    = {10.1145/3.4}'' (text_b (bibtex p))"
      unfolding sublist_def by blast
  qed
  have d: "id_p p = ''https://dblp.org/rec/x'' \<longrightarrow>
            sublist ''url    = {https://dblp.org/rec/x}'' (text_b (bibtex p))
            \<and> \<not> suffix (''  doi    = {https://dblp.org/rec/x}'' @ NL @ ''}'' @ NL)
                        (text_b (bibtex p))"
  proof
    assume i: "id_p p = ''https://dblp.org/rec/x''"
    have "text_b (bibtex p) =
            (pre @ ''  '') @ ''url    = {https://dblp.org/rec/x}'' @ (NL @ ''}'' @ NL)"
      by (simp add: t i)
    then have "sublist ''url    = {https://dblp.org/rec/x}'' (text_b (bibtex p))"
      unfolding sublist_def by blast
    moreover have "\<not> suffix (''  doi    = {https://dblp.org/rec/x}'' @ NL @ ''}'' @ NL)
                             (text_b (bibtex p))"
      by (simp add: t i suffix_def)
    ultimately show "sublist ''url    = {https://dblp.org/rec/x}'' (text_b (bibtex p))
            \<and> \<not> suffix (''  doi    = {https://dblp.org/rec/x}'' @ NL @ ''}'' @ NL)
                        (text_b (bibtex p))" ..
  qed
  from a b c d show ?thesis by blast
qed

theorem dblp_identifier_field_witness:
  "source doiHit = dblp \<and> source urlHit = dblp
   \<and> prefix ''10.'' (id_p doiHit) \<and> \<not> prefix ''10.'' (id_p urlHit)
   \<and> id_p doiHit = ''10.1145/3.4'' \<and> id_p urlHit = ''https://dblp.org/rec/x''
   \<and> suffix (''  doi    = {10.1145/3.4}'' @ NL @ ''}'' @ NL) (text_b (bibtex doiHit))
   \<and> suffix (''  url    = {https://dblp.org/rec/x}'' @ NL @ ''}'' @ NL) (text_b (bibtex urlHit))
   \<and> sublist ''doi    = {10.1145/3.4}'' (text_b (bibtex doiHit))
   \<and> sublist ''url    = {https://dblp.org/rec/x}'' (text_b (bibtex urlHit))"
proof -
  have s: "source doiHit = dblp" "source urlHit = dblp"
    by (simp_all add: doiHit_def urlHit_def)
  have i: "id_p doiHit = ''10.1145/3.4''" "id_p urlHit = ''https://dblp.org/rec/x''"
    by (simp_all add: doiHit_def urlHit_def)
  show ?thesis
    using dblp_identifier_field [OF s(1)] dblp_identifier_field [OF s(2)] s i
    by simp
qed

text \<open>
  C8, as the code has it. The synthesis has no check and no error kind of its
  own. At run time it raises a \<open>TypeError\<close> exactly when the authors or the title
  of the selected object are absent, or its identifier is absent and its source
  is neither \<open>arxiv\<close> nor \<open>crossref\<close>; an absent year raises nothing and is printed
  as \<open>undefined\<close>. On every \<open>Paper\<close>, where all required fields are present, it
  returns the key and the text.
\<close>

theorem synthesis_failure_cases:
  "((\<exists>e. bibtexJs r = Inl e) \<longleftrightarrow>
      js_authors r = None \<or> js_title r = None
      \<or> (js_source r \<noteq> Some arxiv \<and> js_source r \<noteq> Some crossref \<and> js_id r = None))
   \<and> bibtexJs (ofPaper p) = Inr (bibtex p)
   \<and> (case bibtexJs jsNoYear of
         Inl e \<Rightarrow> False
       | Inr en \<Rightarrow> key en = ''tongundefineddiffusion''
                   \<and> sublist ''year   = {undefined},'' (text_b en))"
proof -
  have a: "(\<exists>e. bibtexJs r = Inl e) \<longleftrightarrow>
      js_authors r = None \<or> js_title r = None
      \<or> (js_source r \<noteq> Some arxiv \<and> js_source r \<noteq> Some crossref \<and> js_id r = None)"
    by (auto simp: bibtexJs_def bibKeyJs_def Let_def split: option.splits sum.splits)
  have k: "bibKeyJs (ofPaper p) = Inr (bibKey p)"
    by (simp add: bibKeyJs_def ofPaper_def bibKey_def showJs_def)
  have b: "bibtexJs (ofPaper p) = Inr (bibtex p)"
    unfolding bibtexJs_def k
    by (cases "source p") (simp_all add: ofPaper_def bibtex_def Let_def showJs_def)
  have c: "case bibtexJs jsNoYear of
         Inl e \<Rightarrow> False
       | Inr en \<Rightarrow> key en = ''tongundefineddiffusion''
                   \<and> sublist ''year   = {undefined},'' (text_b en)"
    by code_simp
  from a b c show ?thesis by blast
qed

theorem synthesis_failure_cases_witness:
  "js_authors jsNoAuthors = None \<and> (\<exists>e. bibtexJs jsNoAuthors = Inl e)
   \<and> bibtexJs (ofPaper tongRecord) = Inr (bibtex tongRecord)
   \<and> key (bibtex tongRecord) = ''tong2024diffusion''"
proof -
  have a: "js_authors jsNoAuthors = None"
    by (simp add: jsNoAuthors_def)
  have b: "key (bibtex tongRecord) = ''tong2024diffusion''"
    by code_simp
  from a b synthesis_failure_cases [of jsNoAuthors tongRecord] show ?thesis
    by blast
qed

text \<open>
  With the title and the year present the synthesis still fails when the
  authors are absent, and when the identifier of a DBLP record is absent.
\<close>

theorem synthesis_failure_counterexample:
  "js_title jsNoAuthors \<noteq> None \<and> js_year jsNoAuthors \<noteq> None
   \<and> bibtexJs jsNoAuthors = Inl TypeError
   \<and> js_title jsNoId \<noteq> None \<and> js_year jsNoId \<noteq> None
   \<and> bibtexJs jsNoId = Inl TypeError"
  by code_simp

text \<open>
  C10. A DBLP hit whose \<open>info\<close> has neither \<open>doi\<close> nor \<open>url\<close> gives a record with the
  empty identifier; the empty string does not start with \<open>10.\<close>, so the text of
  that record ends with the empty \<open>url\<close> field.
\<close>

theorem no_identifier_hit:
  assumes "info_doi info = None" and "info_url info = None"
  shows "id_p (dblpPaper info) = []
       \<and> \<not> prefix ''10.'' (id_p (dblpPaper info))
       \<and> suffix (''  url    = {}'' @ NL @ ''}'' @ NL) (text_b (bibtex (dblpPaper info)))"
proof -
  have i: "id_p (dblpPaper info) = []"
    using assms by (simp add: dblpPaper_def)
  have s: "source (dblpPaper info) = dblp"
    by (simp add: dblpPaper_def)
  from bibtex_dblp_text [OF s] obtain pre where
    "text_b (bibtex (dblpPaper info)) =
       pre @ ''  journal= {''
           @ (case journal (dblpPaper info) of None \<Rightarrow> ''conference'' | Some j \<Rightarrow> j)
           @ ''},'' @ NL @ ''  url    = {}'' @ NL @ ''}'' @ NL"
    by (auto simp: i)
  then have "suffix (''  url    = {}'' @ NL @ ''}'' @ NL) (text_b (bibtex (dblpPaper info)))"
    unfolding suffix_def by (metis append_assoc)
  with i show ?thesis by simp
qed

theorem no_identifier_hit_witness:
  "info_doi bareInfo = None \<and> info_url bareInfo = None
   \<and> id_p (dblpPaper bareInfo) = []
   \<and> suffix (''  url    = {}'' @ NL @ ''}'' @ NL) (text_b (bibtex (dblpPaper bareInfo)))"
proof -
  have a: "info_doi bareInfo = None" "info_url bareInfo = None"
    by (simp_all add: bareInfo_def)
  from no_identifier_hit [OF a] a show ?thesis by blast
qed

section \<open>The aggregating flag\<close>



section \<open>The first significant word of a title\<close>

text \<open>
  C3, as the code has it. \<open>firstWord\<close> takes the tokens of the title (split on
  white space, punctuation stripped at both ends, empty tokens dropped: every
  token is non-empty and starts and ends with a letter or digit) and returns
  the first token whose lower-case form is not a stopword. When every token is a
  stopword it returns the first token; it returns \<open>paper\<close> when there is no token,
  as for the empty title. \<open>The Attention Is All You Need\<close> gives \<open>Attention\<close>, also
  with a tab and a line break between the words.
\<close>

theorem firstWord_result:
  "(titleWords t = pre @ w # post \<and> (\<forall>v\<in>set pre. toLowerCase v \<in> set STOPWORDS)
      \<and> toLowerCase w \<notin> set STOPWORDS \<longrightarrow> firstWord t = w)
   \<and> (titleWords t = w # rest \<and> (\<forall>v\<in>set (w # rest). toLowerCase v \<in> set STOPWORDS)
      \<longrightarrow> firstWord t = w)
   \<and> (titleWords t = [] \<longrightarrow> firstWord t = ''paper'')
   \<and> (\<forall>v\<in>set (titleWords t). v \<noteq> [] \<and> isAlnum (hd v) \<and> isAlnum (last v))
   \<and> firstWord [] = ''paper''
   \<and> firstWord ''The Attention Is All You Need'' = ''Attention''
   \<and> firstWord (''The'' @ [CHR 0x09] @ ''Attention'' @ NL @ ''Is'') = ''Attention''"
proof -
  have a: "titleWords t = pre @ w # post \<and> (\<forall>v\<in>set pre. toLowerCase v \<in> set STOPWORDS)
      \<and> toLowerCase w \<notin> set STOPWORDS \<longrightarrow> firstWord t = w"
    by (simp add: firstWord_def Let_def firstNonStopword_Some)
  have b: "titleWords t = w # rest \<and> (\<forall>v\<in>set (w # rest). toLowerCase v \<in> set STOPWORDS)
      \<longrightarrow> firstWord t = w"
  proof
    assume h: "titleWords t = w # rest \<and> (\<forall>v\<in>set (w # rest). toLowerCase v \<in> set STOPWORDS)"
    then have "firstNonStopword (w # rest) = None"
      by (intro firstNonStopword_None) blast
    with h show "firstWord t = w"
      by (simp add: firstWord_def Let_def)
  qed
  have c: "titleWords t = [] \<longrightarrow> firstWord t = ''paper''"
    by (simp add: firstWord_def Let_def)
  have d: "firstWord [] = ''paper''" by code_simp
  have e: "firstWord ''The Attention Is All You Need'' = ''Attention''" by code_simp
  have f: "firstWord (''The'' @ [CHR 0x09] @ ''Attention'' @ NL @ ''Is'') = ''Attention''"
    by code_simp
  from a b c d e f titleWords_shape [of t] show ?thesis by blast
qed

theorem firstWord_result_witness:
  "titleWords ''The Attention Is All You Need'' = [''The''] @ ''Attention'' # [''Is'', ''All'', ''You'', ''Need'']
   \<and> toLowerCase ''The'' \<in> set STOPWORDS
   \<and> toLowerCase ''Attention'' \<notin> set STOPWORDS
   \<and> firstWord ''The Attention Is All You Need'' = ''Attention''
   \<and> titleWords ''the a'' = ''the'' # [''a'']
   \<and> toLowerCase ''the'' \<in> set STOPWORDS \<and> toLowerCase ''a'' \<in> set STOPWORDS
   \<and> firstWord ''the a'' = ''the''
   \<and> titleWords ''--'' = [] \<and> firstWord ''--'' = ''paper''
   \<and> titleWords ''(The) end.'' = [''The'', ''end'']
   \<and> isAlnum (hd ''end'') \<and> isAlnum (last ''end'')"
proof -
  have a: "titleWords ''The Attention Is All You Need'' =
             [''The''] @ ''Attention'' # [''Is'', ''All'', ''You'', ''Need'']"
    by code_simp
  have b: "\<forall>v\<in>set [''The'']. toLowerCase v \<in> set STOPWORDS"
    by code_simp
  have c: "toLowerCase ''Attention'' \<notin> set STOPWORDS"
    by code_simp
  have d: "titleWords ''the a'' = ''the'' # [''a'']"
    by code_simp
  have e: "\<forall>v\<in>set (''the'' # [''a'']). toLowerCase v \<in> set STOPWORDS"
    by code_simp
  have f: "titleWords ''--'' = []"
    by code_simp
  from a b c
    firstWord_result [where t = "''The Attention Is All You Need''" and pre = "[''The'']"
      and w = "''Attention''" and post = "[''Is'', ''All'', ''You'', ''Need'']"]
  have g: "firstWord ''The Attention Is All You Need'' = ''Attention''"
    by blast
  from d e firstWord_result [where t = "''the a''" and w = "''the''" and rest = "[''a'']"]
  have h: "firstWord ''the a'' = ''the''"
    by blast
  from f firstWord_result [where t = "''--''"]
  have i: "firstWord ''--'' = ''paper''"
    by blast
  from firstWord_result [where t = "''(The) end.''"]
  have j: "\<forall>v\<in>set (titleWords ''(The) end.''). v \<noteq> [] \<and> isAlnum (hd v) \<and> isAlnum (last v)"
    by blast
  have k: "titleWords ''(The) end.'' = [''The'', ''end'']"
    by code_simp
  from j k have l: "isAlnum (hd ''end'') \<and> isAlnum (last ''end'')"
    by simp
  from b e have m: "toLowerCase ''The'' \<in> set STOPWORDS
      \<and> toLowerCase ''the'' \<in> set STOPWORDS \<and> toLowerCase ''a'' \<in> set STOPWORDS"
    by simp
  from a c d f g h i k l m show ?thesis by blast
qed

text \<open>
  The title \<open>The\<close> has the one token \<open>The\<close>, a stopword, and \<open>firstWord\<close> returns
  that token, not \<open>paper\<close>.
\<close>

theorem firstWord_all_stopwords_counterexample:
  "titleWords ''The'' = [''The''] \<and> toLowerCase ''The'' \<in> set STOPWORDS
   \<and> firstWord ''The'' = ''The'' \<and> firstWord ''The'' \<noteq> ''paper''"
  by code_simp

section \<open>Surname extraction\<close>

text \<open>
  C5, as the code has it. \<open>surname\<close> returns a non-empty string exactly when the
  input has a character that is not white space before its first comma (anywhere
  in the input when it has no comma). The fallback \<open>anon\<close> is chosen by \<open>bibKey\<close>,
  not by \<open>surname\<close>: with a non-empty author list the key starts with the cleaned
  surname of the first author, and \<open>surname\<close> leaves \<open>anon\<close> as it is.
\<close>

theorem surname_nonempty_iff:
  "(surname s \<noteq> [] \<longleftrightarrow> (\<exists>c\<in>set (takeWhile (\<lambda>c. c \<noteq> CHR '','') s). \<not> isSpace c))
   \<and> (authors p = a # as \<longrightarrow>
         bibKey p = clean (surname a) @ year p @ clean (firstWord (title p)))
   \<and> surname ''anon'' = ''anon''"
proof -
  have main: "surname s \<noteq> [] \<longleftrightarrow> (\<exists>c\<in>set (takeWhile (\<lambda>c. c \<noteq> CHR '','') s). \<not> isSpace c)"
  proof -
    define u where "u = trim s"
    define t where "t = stripNumericSuffix u"
    obtain ld tr where s: "s = ld @ u @ tr"
      and ld: "\<forall>c\<in>set ld. isSpace c" and tr: "\<forall>c\<in>set tr. isSpace c"
      unfolding u_def using trim_decomp [of s] by blast
    obtain suf where u: "u = t @ suf" and suf: "\<forall>c\<in>set suf. isSpace c \<or> isDigit c"
      unfolding t_def using strip_decomp [of u] by blast
    have na: "CHR '','' \<notin> set ld" using ld by auto
    have nb: "CHR '','' \<notin> set tr" using tr by auto
    have ns: "CHR '','' \<notin> set suf" using suf by auto
    have s': "s = ld @ t @ (suf @ tr)" by (simp add: s u)
    have sur: "surname s =
       (if CHR '','' \<in> set t then trim (takeWhile (\<lambda>c. c \<noteq> CHR '','') t)
        else rev (takeWhile (\<lambda>c. \<not> isSpace c) (rev t)))"
      by (simp add: surname_unfold Let_def t_def u_def)
    show ?thesis
    proof (cases "CHR '','' \<in> set t")
      case True
      have tw: "takeWhile (\<lambda>c. c \<noteq> CHR '','') s = ld @ takeWhile (\<lambda>c. c \<noteq> CHR '','') t"
      proof -
        have "takeWhile (\<lambda>c. c \<noteq> CHR '','') (ld @ (t @ (suf @ tr))) =
                ld @ takeWhile (\<lambda>c. c \<noteq> CHR '','') (t @ (suf @ tr))"
          using na by (intro takeWhile_append2) blast
        moreover have "takeWhile (\<lambda>c. c \<noteq> CHR '','') (t @ (suf @ tr)) =
                takeWhile (\<lambda>c. c \<noteq> CHR '','') t"
          using True by (intro takeWhile_append1 [of "CHR '',''"]) simp_all
        ultimately show ?thesis by (simp only: s')
      qed
      have "surname s \<noteq> [] \<longleftrightarrow> (\<exists>c\<in>set (takeWhile (\<lambda>c. c \<noteq> CHR '','') t). \<not> isSpace c)"
        using True by (simp add: sur trim_Nil_iff)
      also have "\<dots> \<longleftrightarrow> (\<exists>c\<in>set (takeWhile (\<lambda>c. c \<noteq> CHR '','') s). \<not> isSpace c)"
        using ld by (auto simp: tw)
      finally show ?thesis .
    next
      case False
      then have "CHR '','' \<notin> set s"
        using na nb ns by (simp add: s')
      then have tw: "takeWhile (\<lambda>c. c \<noteq> CHR '','') s = s"
        by auto
      have sur': "surname s = rev (takeWhile (\<lambda>c. \<not> isSpace c) (rev t))"
        using False by (simp add: sur)
      have "surname s \<noteq> [] \<longleftrightarrow> u \<noteq> []"
      proof
        assume "surname s \<noteq> []"
        then have "t \<noteq> []" by (auto simp: sur')
        with u show "u \<noteq> []" by auto
      next
        assume ne: "u \<noteq> []"
        then have e: "\<not> isSpace (hd u)" "\<not> isSpace (last u)"
          unfolding u_def by (rule trim_ends)+
        from ne e(1) have tne: "t \<noteq> []" unfolding t_def by (rule strip_nonempty)
        then have "\<not> isSpace (last t)" using e(2) unfolding t_def by (rule strip_last)
        then have "takeWhile (\<lambda>c. \<not> isSpace c) (rev t) \<noteq> []"
          using tne by (simp add: takeWhile_eq_Nil_iff hd_rev)
        then show "surname s \<noteq> []" by (simp add: sur')
      qed
      also have "\<dots> \<longleftrightarrow> (\<exists>c\<in>set s. \<not> isSpace c)"
        by (simp add: u_def trim_Nil_iff)
      finally show ?thesis by (simp only: tw)
    qed
  qed
  have key: "authors p = a # as \<longrightarrow>
         bibKey p = clean (surname a) @ year p @ clean (firstWord (title p))"
    by (simp add: bibKey_def)
  have anon: "surname ''anon'' = ''anon''"
    by code_simp
  from main key anon show ?thesis by blast
qed

theorem surname_nonempty_iff_witness:
  "takeWhile (\<lambda>c. c \<noteq> CHR '','') ''Tong, Alex'' = ''Tong''
   \<and> \<not> isSpace CHR ''T''
   \<and> surname ''Tong, Alex'' \<noteq> []
   \<and> authors tongRecord = ''Tong, Alex'' # []
   \<and> bibKey tongRecord = ''tong2024diffusion''"
proof -
  have a: "\<exists>c\<in>set (takeWhile (\<lambda>c. c \<noteq> CHR '','') ''Tong, Alex''). \<not> isSpace c"
    by code_simp
  have b: "authors tongRecord = ''Tong, Alex'' # []"
    by (simp add: tongRecord_def)
  have c: "clean (surname ''Tong, Alex'') @ year tongRecord @ clean (firstWord (title tongRecord))
             = ''tong2024diffusion''"
    by code_simp
  from a surname_nonempty_iff [where s = "''Tong, Alex''"]
  have d: "surname ''Tong, Alex'' \<noteq> []"
    by blast
  from b surname_nonempty_iff [where p = tongRecord and a = "''Tong, Alex''" and as = "[]"]
  have "bibKey tongRecord =
          clean (surname ''Tong, Alex'') @ year tongRecord @ clean (firstWord (title tongRecord))"
    by blast
  with c have e: "bibKey tongRecord = ''tong2024diffusion''"
    by (simp only:)
  have f: "takeWhile (\<lambda>c. c \<noteq> CHR '','') ''Tong, Alex'' = ''Tong'' \<and> \<not> isSpace CHR ''T''"
    by code_simp
  from b d e f show ?thesis by blast
qed

text \<open>
  The inputs \<open>,\<close> and a single space are non-empty, and \<open>surname\<close> returns the empty
  string for both.
\<close>

theorem surname_empty_counterexample:
  "'','' \<noteq> [] \<and> surname '','' = [] \<and> '' '' \<noteq> [] \<and> surname '' '' = []"
  by code_simp

text \<open>
  C6, as the code has it. \<open>surname\<close> trims the input, then strips the numeric
  suffix; if a comma remains it returns the text before the first comma, trimmed,
  otherwise the last white-space-delimited token (what follows the last
  white-space character). A string that ends with a run of white space followed
  by one to four digits loses exactly that run and those digits; every other
  string is left as it is, as with five digits or with no white space before the
  digits. \<open>Wang, Jianxin\<close>, \<open>Jianxin Wang\<close> and \<open>Jianxin Wang 3\<close> all give \<open>Wang\<close>.
\<close>

theorem surname_rule:
  "surname s =
     (let t = stripNumericSuffix (trim s)
      in if CHR '','' \<in> set t then trim (takeWhile (\<lambda>c. c \<noteq> CHR '','') t)
         else rev (takeWhile (\<lambda>c. \<not> isSpace c) (rev t)))
   \<and> (ws \<noteq> [] \<and> (\<forall>c\<in>set ws. isSpace c) \<and> (\<forall>c\<in>set ds. isDigit c)
        \<and> 1 \<le> length ds \<and> length ds \<le> 4 \<and> (y = [] \<or> \<not> isSpace (last y))
      \<longrightarrow> stripNumericSuffix (y @ ws @ ds) = y)
   \<and> (stripNumericSuffix x \<noteq> x \<longrightarrow>
        (\<exists>ws ds. x = stripNumericSuffix x @ ws @ ds
           \<and> ws \<noteq> [] \<and> (\<forall>c\<in>set ws. isSpace c) \<and> (\<forall>c\<in>set ds. isDigit c)
           \<and> 1 \<le> length ds \<and> length ds \<le> 4
           \<and> (stripNumericSuffix x = [] \<or> \<not> isSpace (last (stripNumericSuffix x)))))
   \<and> stripNumericSuffix ''Jianxin Wang 12345'' = ''Jianxin Wang 12345''
   \<and> stripNumericSuffix ''Jianxin Wang3'' = ''Jianxin Wang3''
   \<and> surname ''Wang, Jianxin'' = ''Wang''
   \<and> surname ''Jianxin Wang'' = ''Wang''
   \<and> surname ''Jianxin Wang 3'' = ''Wang''"
proof -
  have a: "surname ''Wang, Jianxin'' = ''Wang''" by code_simp
  have b: "surname ''Jianxin Wang'' = ''Wang''" by code_simp
  have c: "surname ''Jianxin Wang 3'' = ''Wang''" by code_simp
  have d: "stripNumericSuffix ''Jianxin Wang 12345'' = ''Jianxin Wang 12345''" by code_simp
  have e: "stripNumericSuffix ''Jianxin Wang3'' = ''Jianxin Wang3''" by code_simp
  have f: "stripNumericSuffix x \<noteq> x \<longrightarrow>
        (\<exists>ws ds. x = stripNumericSuffix x @ ws @ ds
           \<and> ws \<noteq> [] \<and> (\<forall>c\<in>set ws. isSpace c) \<and> (\<forall>c\<in>set ds. isDigit c)
           \<and> 1 \<le> length ds \<and> length ds \<le> 4
           \<and> (stripNumericSuffix x = [] \<or> \<not> isSpace (last (stripNumericSuffix x))))"
    using strip_shape [of x] by blast
  have g: "ws \<noteq> [] \<and> (\<forall>c\<in>set ws. isSpace c) \<and> (\<forall>c\<in>set ds. isDigit c)
        \<and> 1 \<le> length ds \<and> length ds \<le> 4 \<and> (y = [] \<or> \<not> isSpace (last y))
      \<longrightarrow> stripNumericSuffix (y @ ws @ ds) = y"
    using strip_exact [of ws ds y] by blast
  from a b c d e f g surname_unfold [of s] show ?thesis by blast
qed

theorem surname_rule_witness:
  "isSpace CHR '' '' \<and> isDigit CHR ''3''
   \<and> 1 \<le> length ''3'' \<and> length ''3'' \<le> 4
   \<and> \<not> isSpace (last ''Jianxin Wang'')
   \<and> stripNumericSuffix (''Jianxin Wang'' @ '' '' @ ''3'') = ''Jianxin Wang''
   \<and> stripNumericSuffix ''Jianxin Wang 3'' \<noteq> ''Jianxin Wang 3''
   \<and> (\<exists>ws ds. ''Jianxin Wang 3'' = stripNumericSuffix ''Jianxin Wang 3'' @ ws @ ds
         \<and> ws \<noteq> [] \<and> (\<forall>c\<in>set ws. isSpace c) \<and> (\<forall>c\<in>set ds. isDigit c)
         \<and> 1 \<le> length ds \<and> length ds \<le> 4)"
proof -
  have a: "'' '' \<noteq> [] \<and> (\<forall>c\<in>set '' ''. isSpace c) \<and> (\<forall>c\<in>set ''3''. isDigit c)
     \<and> 1 \<le> length ''3'' \<and> length ''3'' \<le> 4
     \<and> (''Jianxin Wang'' = [] \<or> \<not> isSpace (last ''Jianxin Wang''))"
    by code_simp
  with surname_rule [where ws = "'' ''" and ds = "''3''" and y = "''Jianxin Wang''"]
  have b: "stripNumericSuffix (''Jianxin Wang'' @ '' '' @ ''3'') = ''Jianxin Wang''"
    by blast
  have c: "isSpace CHR '' '' \<and> isDigit CHR ''3''
     \<and> 1 \<le> length ''3'' \<and> length ''3'' \<le> 4
     \<and> \<not> isSpace (last ''Jianxin Wang'')"
    by code_simp
  have d: "stripNumericSuffix ''Jianxin Wang 3'' \<noteq> ''Jianxin Wang 3''"
    by code_simp
  with surname_rule [where x = "''Jianxin Wang 3''"]
  have e: "\<exists>ws ds. ''Jianxin Wang 3'' = stripNumericSuffix ''Jianxin Wang 3'' @ ws @ ds
         \<and> ws \<noteq> [] \<and> (\<forall>c\<in>set ws. isSpace c) \<and> (\<forall>c\<in>set ds. isDigit c)
         \<and> 1 \<le> length ds \<and> length ds \<le> 4"
    by blast
  from b c d e show ?thesis by blast
qed

text \<open>
  On \<open>Wang , Jianxin\<close> the rule without \<^verbatim>\<open>trim\<close> keeps the space before the comma;
  \<open>surname\<close> does not.
\<close>

theorem surname_trims_counterexample:
  "surname ''Wang , Jianxin'' = ''Wang''
   \<and> extractSurname_spec ''Wang , Jianxin'' = ''Wang ''
   \<and> surname ''Wang , Jianxin'' \<noteq> extractSurname_spec ''Wang , Jianxin''"
  by code_simp

section \<open>What the adapters store\<close>

text \<open>
  C4, as the code has it. The numeric suffix is stripped from author strings
  (\<open>toAuthorStr\<close>, which \<open>dblpPaper\<close> maps over the authors), not from venue strings:
  the venue of a DBLP hit is stored as it is and printed as it is in the
  \<open>journal\<close> field of the text.
\<close>

theorem venue_not_stripped:
  "(info_venue info = Some v \<longrightarrow>
      journal (dblpPaper info) = Some v
      \<and> sublist (''journal= {'' @ v @ ''},'') (text_b (bibtex (dblpPaper info))))
   \<and> (info_authors info = Some (ManyAuthors rawAuth) \<longrightarrow>
        authors (dblpPaper info) = map toAuthorStr rawAuth)
   \<and> toAuthorStr (AuthorStr ''Jianxin Wang 3'') = ''Jianxin Wang''
   \<and> toAuthorStr (AuthorObj (Some ''Jianxin Wang 3'') None None None None) = ''Jianxin Wang''"
proof -
  have a: "info_venue info = Some v \<longrightarrow>
      journal (dblpPaper info) = Some v
      \<and> sublist (''journal= {'' @ v @ ''},'') (text_b (bibtex (dblpPaper info)))"
  proof
    assume v: "info_venue info = Some v"
    then have j: "journal (dblpPaper info) = Some v"
      by (simp add: dblpPaper_def)
    have "source (dblpPaper info) = dblp"
      by (simp add: dblpPaper_def)
    from bibtex_dblp_text [OF this] obtain pre suf where
      "text_b (bibtex (dblpPaper info)) = (pre @ ''  '') @ (''journal= {'' @ v @ ''},'') @ suf"
      by (auto simp: j)
    then have "sublist (''journal= {'' @ v @ ''},'') (text_b (bibtex (dblpPaper info)))"
      unfolding sublist_def by blast
    with j show "journal (dblpPaper info) = Some v
      \<and> sublist (''journal= {'' @ v @ ''},'') (text_b (bibtex (dblpPaper info)))" ..
  qed
  have b: "info_authors info = Some (ManyAuthors rawAuth) \<longrightarrow>
        authors (dblpPaper info) = map toAuthorStr rawAuth"
    by (simp add: dblpPaper_def)
  have c: "toAuthorStr (AuthorStr ''Jianxin Wang 3'') = ''Jianxin Wang''"
    by code_simp
  have d: "toAuthorStr (AuthorObj (Some ''Jianxin Wang 3'') None None None None) = ''Jianxin Wang''"
    by code_simp
  from a b c d show ?thesis by blast
qed

theorem venue_not_stripped_witness:
  "info_venue neuripsInfo = Some ''NeurIPS 2''
   \<and> journal (dblpPaper neuripsInfo) = Some ''NeurIPS 2''
   \<and> sublist ''journal= {NeurIPS 2},'' (text_b (bibtex (dblpPaper neuripsInfo)))
   \<and> info_authors neuripsInfo =
       Some (ManyAuthors [AuthorObj (Some ''Jianxin Wang 3'') None None None None])
   \<and> authors (dblpPaper neuripsInfo) = [''Jianxin Wang'']"
proof -
  have a: "info_venue neuripsInfo = Some ''NeurIPS 2''"
    by (simp add: neuripsInfo_def)
  have b: "info_authors neuripsInfo =
       Some (ManyAuthors [AuthorObj (Some ''Jianxin Wang 3'') None None None None])"
    by (simp add: neuripsInfo_def)
  note t = venue_not_stripped [where info = neuripsInfo and v = "''NeurIPS 2''"
      and rawAuth = "[AuthorObj (Some ''Jianxin Wang 3'') None None None None]"]
  from a t have c: "journal (dblpPaper neuripsInfo) = Some ''NeurIPS 2''
     \<and> sublist (''journal= {'' @ ''NeurIPS 2'' @ ''},'') (text_b (bibtex (dblpPaper neuripsInfo)))"
    by blast
  from b t have "authors (dblpPaper neuripsInfo) =
      map toAuthorStr [AuthorObj (Some ''Jianxin Wang 3'') None None None None]"
    by blast
  moreover from t
  have "toAuthorStr (AuthorObj (Some ''Jianxin Wang 3'') None None None None) = ''Jianxin Wang''"
    by blast
  ultimately have d: "authors (dblpPaper neuripsInfo) = [''Jianxin Wang'']"
    by simp
  from a b c d show ?thesis by simp
qed

text \<open>
  The venue \<open>NeurIPS 2\<close> of a DBLP hit is in the record with its digit; stripping
  would give \<open>NeurIPS\<close>.
\<close>

theorem venue_suffix_counterexample:
  "journal (dblpPaper neuripsInfo) = Some ''NeurIPS 2''
   \<and> stripNumericSuffix ''NeurIPS 2'' = ''NeurIPS''
   \<and> journal (dblpPaper neuripsInfo) \<noteq> Some (stripNumericSuffix ''NeurIPS 2'')"
  by code_simp

text \<open>
  C9, as the code has it. The title of an arXiv record and the title of a DBLP
  record are white-space-collapsed. The title of an arXiv record is non-empty
  exactly when the raw title has a character that is not white space; the title
  of a DBLP record exactly when the raw title is absent or non-empty; the title
  of a Crossref record exactly when the raw title list is absent, empty or starts
  with a non-empty string.
\<close>

theorem adapter_titles:
  "collapsed (arxivTitle t)
   \<and> collapsed (title (dblpPaper info))
   \<and> (arxivTitle t \<noteq> [] \<longleftrightarrow> (\<exists>c\<in>set t. \<not> isSpace c))
   \<and> (title (dblpPaper info) \<noteq> [] \<longleftrightarrow> info_title info \<noteq> Some [])
   \<and> (crossrefTitle ts \<noteq> [] \<longleftrightarrow> (\<forall>x xs. ts = Some (x # xs) \<longrightarrow> x \<noteq> []))"
proof -
  have a: "collapsed (arxivTitle t)"
    by (simp add: arxivTitle_def collapsed_collapseWs)
  have b: "collapsed (title (dblpPaper info))"
    by (simp add: dblpPaper_def collapsed_collapseWs)
  have c: "arxivTitle t \<noteq> [] \<longleftrightarrow> (\<exists>c\<in>set t. \<not> isSpace c)"
    by (simp add: arxivTitle_def collapseWs_Nil_iff trim_Nil_iff)
  have d: "title (dblpPaper info) \<noteq> [] \<longleftrightarrow> info_title info \<noteq> Some []"
    by (cases "info_title info") (simp_all add: dblpPaper_def collapseWs_Nil_iff)
  have e: "crossrefTitle ts \<noteq> [] \<longleftrightarrow> (\<forall>x xs. ts = Some (x # xs) \<longrightarrow> x \<noteq> [])"
    by (auto simp: crossrefTitle_def split: option.splits list.splits)
  from a b c d e show ?thesis by blast
qed

theorem adapter_titles_witness:
  "arxivTitle (''  Deep'' @ NL @ ''   Nets '') = ''Deep Nets''
   \<and> collapsed ''Deep Nets''
   \<and> title (dblpPaper neuripsInfo) = ''Deep Nets''
   \<and> \<not> isSpace CHR ''D''
   \<and> info_title neuripsInfo \<noteq> Some []
   \<and> crossrefTitle (Some [''Deep  Nets'']) \<noteq> []"
proof -
  have a: "arxivTitle (''  Deep'' @ NL @ ''   Nets '') = ''Deep Nets''"
    by code_simp
  have b: "title (dblpPaper neuripsInfo) = ''Deep Nets''"
    by code_simp
  have c: "\<exists>c\<in>set (''  Deep'' @ NL @ ''   Nets ''). \<not> isSpace c"
    by code_simp
  have d: "info_title neuripsInfo \<noteq> Some []"
    by (simp add: neuripsInfo_def)
  have e: "\<forall>x xs. Some [''Deep  Nets''] = Some (x # xs) \<longrightarrow> x \<noteq> []"
    by simp
  note t = adapter_titles [where t = "''  Deep'' @ NL @ ''   Nets ''" and info = neuripsInfo
      and ts = "Some [''Deep  Nets'']"]
  from t a have f: "collapsed ''Deep Nets''"
    by (simp only:)
  from t e have g: "crossrefTitle (Some [''Deep  Nets'']) \<noteq> []"
    by blast
  have h: "\<not> isSpace CHR ''D''"
    by code_simp
  from a b d f g h show ?thesis by blast
qed

text \<open>
  A Crossref title with two adjacent spaces is stored as it is, and the empty or
  blank raw title gives the empty title in each of the three adapters.
\<close>

theorem adapter_titles_counterexample:
  "crossrefTitle (Some [''Deep  Nets'']) = ''Deep  Nets''
   \<and> \<not> collapsed (crossrefTitle (Some [''Deep  Nets'']))
   \<and> crossrefTitle (Some [[]]) = []
   \<and> arxivTitle '' '' = []
   \<and> title (dblpPaper bareInfo) = []"
  by code_simp

end
